theory Spec2Isabelle
  imports Main "HOL-Library.AList"
begin

section \<open>Python primitives used by the HEMCO parsers\<close>

text \<open>
  The four parsers (\<^verbatim>\<open>config2yaml.py\<close> and its twin \<^verbatim>\<open>Convert_HemcoConfig2yaml.py\<close>,
  \<^verbatim>\<open>convert_diag2yaml.py\<close>, \<^verbatim>\<open>spec2yaml.py\<close>, \<^verbatim>\<open>grid2yaml.py\<close>) are line loops
  built from a handful of \<^verbatim>\<open>str\<close> methods.  A Python string is modelled as a
  \<^typ>\<open>string\<close> whose characters stand for the code points below 256.
\<close>

subsection \<open>Exceptions\<close>

datatype py_error = IndexError | KeyError | AttributeError | ValueError

definition bind_err :: "py_error + 'a \<Rightarrow> ('a \<Rightarrow> py_error + 'b) \<Rightarrow> py_error + 'b" where
  "bind_err r f = (case r of Inl e \<Rightarrow> Inl e | Inr x \<Rightarrow> f x)"

text \<open>\<^verbatim>\<open>xs[i]\<close> for a non-negative literal index: out of range raises IndexError.\<close>

definition py_index :: "'a list \<Rightarrow> nat \<Rightarrow> py_error + 'a" where
  "py_index xs i = (if i < length xs then Inr (xs ! i) else Inl IndexError)"

text \<open>\<^verbatim>\<open>d[k]\<close> on a dict: a missing key raises KeyError.\<close>

definition py_getitem :: "('k \<times> 'v) list \<Rightarrow> 'k \<Rightarrow> py_error + 'v" where
  "py_getitem d k = (case map_of d k of None \<Rightarrow> Inl KeyError | Some v \<Rightarrow> Inr v)"

subsection \<open>Whitespace\<close>

text \<open>
  \<^verbatim>\<open>str.split()\<close>, \<^verbatim>\<open>str.strip()\<close> and the regular expression class \<^verbatim>\<open>\s\<close> on
  \<^verbatim>\<open>str\<close> patterns all use the same predicate (\<^verbatim>\<open>Py_UNICODE_ISSPACE\<close>); below 256
  it holds for TAB, LF, VT, FF, CR, FS, GS, RS, US, SPACE, NEL and NBSP.
\<close>

definition is_space :: "char \<Rightarrow> bool" where
  "is_space c = (c \<in> set [CHR 0x09, CHR 0x0A, CHR 0x0B, CHR 0x0C, CHR 0x0D,
     CHR 0x1C, CHR 0x1D, CHR 0x1E, CHR 0x1F, CHR 0x20, CHR 0x85, CHR 0xA0])"

text \<open>
  \<^verbatim>\<open>re.match(r'^\s*$', line)\<close>: the star takes a run of leading whitespace and the
  dollar needs the end of the string, or the position before a final line feed.  A line
  feed is itself whitespace, so the match succeeds exactly on the lines that consist of
  whitespace only (the empty line among them).
\<close>

definition is_blank :: "string \<Rightarrow> bool" where
  "is_blank line = list_all is_space line"

text \<open>\<^verbatim>\<open>s.strip()\<close>\<close>

definition strip :: "string \<Rightarrow> string" where
  "strip s = rev (dropWhile is_space (rev (dropWhile is_space s)))"

text \<open>\<^verbatim>\<open>s.startswith(p)\<close>\<close>

definition startswith :: "string \<Rightarrow> string \<Rightarrow> bool" where
  "startswith s p = (take (length p) s = p)"

text \<open>
  \<^verbatim>\<open>s.split()\<close> without a separator: skip whitespace, take the run of
  non-whitespace characters as a token, repeat.  No token is empty.
\<close>

function split_ws :: "string \<Rightarrow> string list" where
  "split_ws s =
     (case dropWhile is_space s of
        [] \<Rightarrow> []
      | c # cs \<Rightarrow> takeWhile (\<lambda>x. \<not> is_space x) (c # cs)
                 # split_ws (dropWhile (\<lambda>x. \<not> is_space x) (c # cs)))"
  by pat_completeness auto
termination
proof (relation "measure length")
  show "wf (measure length)" by simp
next
  fix s :: string and c cs
  assume d: "dropWhile is_space s = c # cs"
  have "\<not> is_space c"
    using d hd_dropWhile [of is_space s] by (cases "dropWhile is_space s") auto
  then have "length (dropWhile (\<lambda>x. \<not> is_space x) (c # cs)) \<le> length cs"
    by (simp add: length_dropWhile_le)
  also have "length cs < length (dropWhile is_space s)"
    using d by simp
  also have "\<dots> \<le> length s"
    by (rule length_dropWhile_le)
  finally show "(dropWhile (\<lambda>x. \<not> is_space x) (c # cs), s) \<in> measure length"
    by simp
qed

declare split_ws.simps [simp del]

text \<open>\<^verbatim>\<open>sep.join(xs)\<close>\<close>

fun join :: "string \<Rightarrow> string list \<Rightarrow> string" where
  "join sep [] = []"
| "join sep [x] = x"
| "join sep (x # y # ys) = x @ sep @ join sep (y # ys)"

subsection \<open>Splitting on a separator\<close>

text \<open>
  \<^verbatim>\<open>find_sep sep s\<close> cuts \<open>s\<close> at the leftmost occurrence of \<open>sep\<close> and returns the
  text before it and the text after it.
\<close>

fun find_sep :: "string \<Rightarrow> string \<Rightarrow> (string \<times> string) option" where
  "find_sep sep [] = None"
| "find_sep sep (c # cs) =
     (if startswith (c # cs) sep then Some ([], drop (length sep) (c # cs))
      else (case find_sep sep cs of
              None \<Rightarrow> None
            | Some (b, a) \<Rightarrow> Some (c # b, a)))"

text \<open>
  \<^verbatim>\<open>s.split(sep)\<close>: cut at every occurrence, left to right, occurrences not
  overlapping.  Python raises ValueError for an empty separator; every call in the
  parsers passes a non-empty literal, and the model returns the empty list there.
\<close>

function split_sep :: "string \<Rightarrow> string \<Rightarrow> string list" where
  "split_sep sep s =
     (if sep = [] then []
      else (case find_sep sep s of
              None \<Rightarrow> [s]
            | Some (b, a) \<Rightarrow> b # split_sep sep a))"
  by pat_completeness auto
termination
proof (relation "measure (\<lambda>(sep, s). length s)")
  show "wf (measure (\<lambda>(sep, s). length s))" by simp
next
  fix sep s :: string and x b a
  assume sep: "sep \<noteq> []" and f: "find_sep sep s = Some x" and x: "(b, a) = x"
  have shorter: "find_sep sep t = Some (b', a') \<Longrightarrow> length a' < length t" for t b' a'
  proof (induction t arbitrary: b')
    case Nil
    then show ?case by simp
  next
    case (Cons c cs)
    show ?case
    proof (cases "startswith (c # cs) sep")
      case True
      with Cons.prems sep show ?thesis by (cases sep) auto
    next
      case False
      with Cons.prems obtain b'' where "find_sep sep cs = Some (b'', a')"
        by (auto split: option.splits)
      from Cons.IH [OF this] show ?thesis by simp
    qed
  qed
  from f x have "find_sep sep s = Some (b, a)" by simp
  from shorter [OF this] show "((sep, a), sep, s) \<in> measure (\<lambda>(sep, s). length s)"
    by simp
qed

declare split_sep.simps [simp del]

text \<open>\<^verbatim>\<open>s.split(sep, maxsplit)\<close> for a non-negative \<open>maxsplit\<close>: at most that many cuts.\<close>

fun split_max :: "string \<Rightarrow> nat \<Rightarrow> string \<Rightarrow> string list" where
  "split_max sep 0 s = [s]"
| "split_max sep (Suc n) s =
     (case find_sep sep s of
        None \<Rightarrow> [s]
      | Some (b, a) \<Rightarrow> b # split_max sep n a)"

text \<open>\<^verbatim>\<open>for line in lines\<close>: the loop body is run on each line; an exception ends it.\<close>

fun for_lines :: "('s \<Rightarrow> string \<Rightarrow> py_error + 's) \<Rightarrow> 's \<Rightarrow> string list \<Rightarrow> py_error + 's" where
  "for_lines body st [] = Inr st"
| "for_lines body st (line # lines) =
     (case body st line of
        Inl e \<Rightarrow> Inl e
      | Inr st' \<Rightarrow> for_lines body st' lines)"

text \<open>
  \<^verbatim>\<open>file.readlines()\<close> on the text of the file (after the translation of line
  endings to a line feed): each line keeps its line feed, the last line may have none.
\<close>

fun readlines :: "string \<Rightarrow> string list" where
  "readlines [] = []"
| "readlines (c # cs) =
     (if c = CHR 0x0A then [c] # readlines cs
      else (case readlines cs of
              [] \<Rightarrow> [[c]]
            | l # ls \<Rightarrow> (c # l) # ls))"

section \<open>The main configuration dialect\<close>

text \<open>
  \<^verbatim>\<open>parse_hemco_config\<close> of \<^verbatim>\<open>config2yaml.py\<close>; the function of the same name in
  \<^verbatim>\<open>Convert_HemcoConfig2yaml.py\<close> is the same loop without the logging calls.
  A value in a section's body is a \<^verbatim>\<open>str\<close> (from a key:value line) or a list of
  token lists (a subsection).  Dicts are association lists in insertion order;
  \<^const>\<open>AList.update\<close> is \<^verbatim>\<open>d[k] = v\<close>.
\<close>

datatype body_value = Scalar string | Rows "string list list"

type_synonym section_body = "(string \<times> body_value) list"

record config_state =
  config_dict :: "(string \<times> section_body) list"
  current_section :: "string option"
  current_sub_section :: "string option"

text \<open>
  \<^verbatim>\<open>if current_section:\<close> is false for \<^verbatim>\<open>None\<close> and for the empty string;
  \<open>active\<close> returns the name when the test succeeds.
\<close>

definition active :: "string option \<Rightarrow> string option" where
  "active x = (case x of None \<Rightarrow> None | Some s \<Rightarrow> if s = [] then None else Some s)"

text \<open>\<^verbatim>\<open>line.split('SECTION')[1].strip()\<close>\<close>

definition config_section_name :: "string \<Rightarrow> py_error + string" where
  "config_section_name line =
     bind_err (py_index (split_sep ''SECTION'' line) 1) (\<lambda>x. Inr (strip x))"

text \<open>
  \<^verbatim>\<open>key, value = line.split(':', 1)\<close>, both stripped, stored in the body of the
  current section.
\<close>

definition config_key_value :: "config_state \<Rightarrow> string \<Rightarrow> string \<Rightarrow> py_error + config_state" where
  "config_key_value st sec line =
     (case split_max '':'' 1 line of
        [key, val] \<Rightarrow>
          bind_err (py_getitem (config_dict st) sec) (\<lambda>body.
            Inr (st\<lparr>config_dict :=
              AList.update sec (AList.update (strip key) (Scalar (strip val)) body) (config_dict st)\<rparr>))
      | _ \<Rightarrow> Inl ValueError)"

text \<open>
  The branch without a colon: \<^verbatim>\<open>parts = line.split()\<close>, appended to the current
  subsection if there is one, else \<^verbatim>\<open>parts[0]\<close> becomes the current subsection.
  \<^verbatim>\<open>.append\<close> on a \<^verbatim>\<open>str\<close> value raises AttributeError.
\<close>

definition config_data_row :: "config_state \<Rightarrow> string \<Rightarrow> string \<Rightarrow> py_error + config_state" where
  "config_data_row st sec line =
     (let parts = split_ws line in
      case active (current_sub_section st) of
        Some sub \<Rightarrow>
          bind_err (py_getitem (config_dict st) sec) (\<lambda>body.
          bind_err (py_getitem body sub) (\<lambda>v.
            case v of
              Scalar _ \<Rightarrow> Inl AttributeError
            | Rows rows \<Rightarrow>
                Inr (st\<lparr>config_dict :=
                  AList.update sec (AList.update sub (Rows (rows @ [parts])) body) (config_dict st)\<rparr>)))
      | None \<Rightarrow>
          bind_err (py_index parts 0) (\<lambda>p0.
          bind_err (py_getitem (config_dict st) sec) (\<lambda>body.
            Inr (st\<lparr>current_sub_section := Some p0,
                    config_dict :=
                      AList.update sec (AList.update p0 (Rows [parts]) body) (config_dict st)\<rparr>))))"

text \<open>One iteration of the loop over the lines.\<close>

definition config_line :: "config_state \<Rightarrow> string \<Rightarrow> py_error + config_state" where
  "config_line st line =
     (if startswith line ''!'' \<or> startswith line ''#'' then Inr st
      else if is_blank line then Inr st
      else if startswith line ''BEGIN SECTION'' then
        bind_err (config_section_name line) (\<lambda>section_name.
          Inr (st\<lparr>current_section := Some section_name,
                  config_dict := AList.update section_name [] (config_dict st)\<rparr>))
      else if startswith line ''END SECTION'' then
        Inr (st\<lparr>current_section := None, current_sub_section := None\<rparr>)
      else if startswith line ''%'' then Inr st
      else (case active (current_section st) of
              Some sec \<Rightarrow>
                if CHR '':'' \<in> set line then config_key_value st sec line
                else config_data_row st sec line
            | None \<Rightarrow> Inr st))"

definition config_init :: config_state where
  "config_init = \<lparr>config_dict = [], current_section = None, current_sub_section = None\<rparr>"

definition parse_hemco_config :: "string \<Rightarrow> py_error + (string \<times> section_body) list" where
  "parse_hemco_config text =
     bind_err (for_lines config_line config_init (readlines text)) (\<lambda>st. Inr (config_dict st))"

section \<open>The diagnostics dialect\<close>

text \<open>
  \<^verbatim>\<open>parse_hemco_diagn\<close> of \<^verbatim>\<open>convert_diag2yaml.py\<close>.  The dict literal appended for
  a row has eight fixed keys, so it is a record.
\<close>

record diagn_record =
  Name :: string
  Spec :: string
  ExtNr :: string
  Cat :: string
  Hier :: string
  Dim :: string
  OutUnit :: string
  LongName :: string

record diagn_state =
  diagn_dict :: "(string \<times> diagn_record list) list"
  diagn_current_section :: "string option"

text \<open>
  \<^verbatim>\<open>line.split(' ')[1].strip()\<close>, the section name of the diagnostics and of the
  species parser.
\<close>

definition begin_section_name :: "string \<Rightarrow> py_error + string" where
  "begin_section_name line =
     bind_err (py_index (split_sep '' '' line) 1) (\<lambda>x. Inr (strip x))"

text \<open>The dict literal: \<^verbatim>\<open>parts[0]\<close> to \<^verbatim>\<open>parts[6]\<close>, and \<^verbatim>\<open>" ".join(parts[7:])\<close>.\<close>

definition diagn_row :: "string list \<Rightarrow> py_error + diagn_record" where
  "diagn_row parts =
     bind_err (py_index parts 0) (\<lambda>p0.
     bind_err (py_index parts 1) (\<lambda>p1.
     bind_err (py_index parts 2) (\<lambda>p2.
     bind_err (py_index parts 3) (\<lambda>p3.
     bind_err (py_index parts 4) (\<lambda>p4.
     bind_err (py_index parts 5) (\<lambda>p5.
     bind_err (py_index parts 6) (\<lambda>p6.
       Inr \<lparr>Name = p0, Spec = p1, ExtNr = p2, Cat = p3, Hier = p4, Dim = p5,
            OutUnit = p6, LongName = join '' '' (drop 7 parts)\<rparr>)))))))"

definition diagn_line :: "diagn_state \<Rightarrow> string \<Rightarrow> py_error + diagn_state" where
  "diagn_line st line =
     (if startswith line ''!'' \<or> startswith line ''#'' then Inr st
      else if is_blank line then Inr st
      else if startswith line ''BEGIN'' then
        bind_err (begin_section_name line) (\<lambda>section_name.
          Inr (st\<lparr>diagn_current_section := Some section_name,
                  diagn_dict := AList.update section_name [] (diagn_dict st)\<rparr>))
      else if startswith line ''END'' then
        Inr (st\<lparr>diagn_current_section := None\<rparr>)
      else (case active (diagn_current_section st) of
              Some sec \<Rightarrow>
                (let parts = split_ws line in
                 bind_err (py_getitem (diagn_dict st) sec) (\<lambda>rows.
                 bind_err (diagn_row parts) (\<lambda>r.
                   Inr (st\<lparr>diagn_dict := AList.update sec (rows @ [r]) (diagn_dict st)\<rparr>))))
            | None \<Rightarrow> Inr st))"

definition diagn_init :: diagn_state where
  "diagn_init = \<lparr>diagn_dict = [], diagn_current_section = None\<rparr>"

definition parse_hemco_diagn :: "string \<Rightarrow> py_error + (string \<times> diagn_record list) list" where
  "parse_hemco_diagn text =
     bind_err (for_lines diagn_line diagn_init (readlines text)) (\<lambda>st. Inr (diagn_dict st))"

section \<open>The species dialect\<close>

text \<open>\<^verbatim>\<open>parse_hemco_species\<close> of \<^verbatim>\<open>spec2yaml.py\<close>.\<close>

record species_record =
  MW :: string
  K0 :: string
  CR :: string
  pKA :: string

record species_state =
  species_dict :: "(string \<times> (string \<times> species_record) list) list"
  species_current_section :: "string option"

text \<open>
  The assignment \<^verbatim>\<open>species_dict[current_section][parts[1]] = {...}\<close> evaluates the
  dict literal (\<^verbatim>\<open>parts[2]\<close> to \<^verbatim>\<open>parts[5]\<close>) first, then the section's body, then
  \<^verbatim>\<open>parts[1]\<close>.  \<open>species_row\<close> is the literal, \<open>species_entry\<close> the key with it.
\<close>

definition species_row :: "string list \<Rightarrow> py_error + species_record" where
  "species_row parts =
     bind_err (py_index parts 2) (\<lambda>p2.
     bind_err (py_index parts 3) (\<lambda>p3.
     bind_err (py_index parts 4) (\<lambda>p4.
     bind_err (py_index parts 5) (\<lambda>p5.
       Inr \<lparr>MW = p2, K0 = p3, CR = p4, pKA = p5\<rparr>))))"

definition species_line :: "species_state \<Rightarrow> string \<Rightarrow> py_error + species_state" where
  "species_line st line =
     (if startswith line ''!'' \<or> startswith line ''#'' then Inr st
      else if is_blank line then Inr st
      else if startswith line ''BEGIN'' then
        bind_err (begin_section_name line) (\<lambda>section_name.
          Inr (st\<lparr>species_current_section := Some section_name,
                  species_dict := AList.update section_name [] (species_dict st)\<rparr>))
      else if startswith line ''END'' then
        Inr (st\<lparr>species_current_section := None\<rparr>)
      else (case active (species_current_section st) of
              Some sec \<Rightarrow>
                (let parts = split_ws line in
                 bind_err (species_row parts) (\<lambda>r.
                 bind_err (py_getitem (species_dict st) sec) (\<lambda>body.
                 bind_err (py_index parts 1) (\<lambda>p1.
                   Inr (st\<lparr>species_dict :=
                     AList.update sec (AList.update p1 r body) (species_dict st)\<rparr>)))))
            | None \<Rightarrow> Inr st))"

definition species_init :: species_state where
  "species_init = \<lparr>species_dict = [], species_current_section = None\<rparr>"

definition parse_hemco_species ::
  "string \<Rightarrow> py_error + (string \<times> (string \<times> species_record) list) list" where
  "parse_hemco_species text =
     bind_err (for_lines species_line species_init (readlines text)) (\<lambda>st. Inr (species_dict st))"

section \<open>The grid dialect\<close>

text \<open>
  \<^verbatim>\<open>parse_hemco_grid\<close> of \<^verbatim>\<open>grid2yaml.py\<close>: the only state is the dict.  The
  unpacking \<^verbatim>\<open>key, value = line.split(':', 1)\<close> raises ValueError unless the list
  has two elements.
\<close>

definition grid_line :: "(string \<times> string) list \<Rightarrow> string \<Rightarrow> py_error + (string \<times> string) list" where
  "grid_line grid_dict line =
     (if startswith line ''!'' \<or> startswith line ''#'' then Inr grid_dict
      else if is_blank line then Inr grid_dict
      else if CHR '':'' \<in> set line then
        (case split_max '':'' 1 line of
           [key, val] \<Rightarrow>
             bind_err (py_index (split_sep ''#'' val) 0) (\<lambda>v.
               Inr (AList.update (strip key) (strip v) grid_dict))
         | _ \<Rightarrow> Inl ValueError)
      else Inr grid_dict)"

definition parse_hemco_grid :: "string \<Rightarrow> py_error + (string \<times> string) list" where
  "parse_hemco_grid text = for_lines grid_line [] (readlines text)"

section \<open>Specification-level definitions\<close>

text \<open>
  What the grid dialect is specified to do with one line: a line that is not a comment,
  not blank and contains a colon yields one entry, the key being the trimmed text before
  the first colon, the value the text after it cut at the first hash sign and trimmed;
  any other line yields nothing.  \<open>grid_add_spec\<close> stores the entry in the mapping.
\<close>

definition grid_entry_spec :: "string \<Rightarrow> (string \<times> string) option" where
  "grid_entry_spec line =
     (if startswith line ''!'' \<or> startswith line ''#'' \<or> is_blank line \<or> CHR '':'' \<notin> set line
      then None
      else Some (strip (takeWhile (\<lambda>c. c \<noteq> CHR '':'') line),
                 strip (takeWhile (\<lambda>c. c \<noteq> CHR ''#'')
                          (tl (dropWhile (\<lambda>c. c \<noteq> CHR '':'') line)))))"

definition grid_add_spec :: "(string \<times> string) list \<Rightarrow> string \<Rightarrow> (string \<times> string) list" where
  "grid_add_spec d line =
     (case grid_entry_spec line of None \<Rightarrow> d | Some (k, v) \<Rightarrow> AList.update k v d)"

text \<open>
  The invariant of the three section loops: the current section, when set, is a key of
  the dict.
\<close>

definition config_inv :: "config_state \<Rightarrow> bool" where
  "config_inv st =
     (case current_section st of None \<Rightarrow> True | Some sec \<Rightarrow> map_of (config_dict st) sec \<noteq> None)"

definition diagn_inv :: "diagn_state \<Rightarrow> bool" where
  "diagn_inv st =
     (case diagn_current_section st of None \<Rightarrow> True | Some sec \<Rightarrow> map_of (diagn_dict st) sec \<noteq> None)"

definition species_inv :: "species_state \<Rightarrow> bool" where
  "species_inv st =
     (case species_current_section st of None \<Rightarrow> True
      | Some sec \<Rightarrow> map_of (species_dict st) sec \<noteq> None)"

section \<open>Facts about the string primitives\<close>

lemma startswith_Nil: "startswith s [] = True"
  by (simp add: startswith_def)

lemma startswith_Cons_iff: "startswith s (p # ps) \<longleftrightarrow> (\<exists>cs. s = p # cs \<and> startswith cs ps)"
  by (cases s) (auto simp: startswith_def)

lemma startswith_append: "startswith s p \<Longrightarrow> s = p @ drop (length p) s"
  unfolding startswith_def by (metis append_take_drop_id)

lemma bind_err_simps:
  "bind_err (Inl e) f = Inl e"
  "bind_err (Inr x) f = f x"
  by (simp_all add: bind_err_def)

lemma for_lines_append:
  "for_lines body st (xs @ ys) = bind_err (for_lines body st xs) (\<lambda>st'. for_lines body st' ys)"
  by (induction xs arbitrary: st) (auto simp: bind_err_def split: sum.splits)

lemma find_sep_single:
  "find_sep [c] s =
     (if c \<in> set s then Some (takeWhile (\<lambda>x. x \<noteq> c) s, tl (dropWhile (\<lambda>x. x \<noteq> c) s)) else None)"
  by (induction s) (auto simp: startswith_def)

lemma find_sep_Some: "find_sep sep s = Some (b, a) \<Longrightarrow> s = b @ sep @ a"
proof (induction s arbitrary: b)
  case Nil
  then show ?case by simp
next
  case (Cons c cs)
  show ?case
  proof (cases "startswith (c # cs) sep")
    case True
    with Cons.prems have "b = []" "a = drop (length sep) (c # cs)" by auto
    with startswith_append [OF True] show ?thesis by simp
  next
    case False
    with Cons.prems obtain b' where "find_sep sep cs = Some (b', a)" "b = c # b'"
      by (auto split: option.splits)
    with Cons.IH [of b'] show ?thesis by simp
  qed
qed

lemma find_sep_None_iff:
  assumes "sep \<noteq> []"
  shows "find_sep sep s = None \<longleftrightarrow> (\<nexists>p q. s = p @ sep @ q)"
proof (induction s)
  case Nil
  with assms show ?case by simp
next
  case (Cons c cs)
  show ?case
  proof (cases "startswith (c # cs) sep")
    case True
    from startswith_append [OF True] have "c # cs = [] @ sep @ drop (length sep) (c # cs)" by simp
    then have "\<exists>p q. c # cs = p @ sep @ q" by blast
    with True show ?thesis by simp
  next
    case False
    have "(\<exists>p q. c # cs = p @ sep @ q) \<longleftrightarrow> (\<exists>p q. cs = p @ sep @ q)"
    proof
      assume "\<exists>p q. c # cs = p @ sep @ q"
      then obtain p q where pq: "c # cs = p @ sep @ q" by blast
      show "\<exists>p q. cs = p @ sep @ q"
      proof (cases p)
        case Nil
        with pq have "startswith (c # cs) sep" by (simp add: startswith_def)
        with False show ?thesis by simp
      next
        case (Cons x p')
        with pq have "cs = p' @ sep @ q" by simp
        then show ?thesis by blast
      qed
    next
      assume "\<exists>p q. cs = p @ sep @ q"
      then obtain p q where "cs = p @ sep @ q" by blast
      then have "c # cs = (c # p) @ sep @ q" by simp
      then show "\<exists>p q. c # cs = p @ sep @ q" by blast
    qed
    with False Cons.IH show ?thesis by (auto split: option.splits)
  qed
qed

lemma split_sep_unfold:
  "sep \<noteq> [] \<Longrightarrow> split_sep sep s =
     (case find_sep sep s of None \<Rightarrow> [s] | Some (b, a) \<Rightarrow> b # split_sep sep a)"
  by (subst split_sep.simps) simp

lemma split_sep_first:
  "sep \<noteq> [] \<Longrightarrow> py_index (split_sep sep s) 0 =
     Inr (case find_sep sep s of None \<Rightarrow> s | Some (b, a) \<Rightarrow> b)"
  by (subst split_sep_unfold) (auto simp: py_index_def split: option.splits)

lemma split_sep_second:
  "sep \<noteq> [] \<Longrightarrow> py_index (split_sep sep s) 1 =
     (case find_sep sep s of
        None \<Rightarrow> Inl IndexError
      | Some (b, a) \<Rightarrow> Inr (case find_sep sep a of None \<Rightarrow> a | Some (b', a') \<Rightarrow> b'))"
proof -
  assume sep: "sep \<noteq> []"
  show ?thesis
  proof (cases "find_sep sep s")
    case None
    with sep show ?thesis by (subst split_sep_unfold) (auto simp: py_index_def)
  next
    case (Some ba)
    obtain b a where ba: "ba = (b, a)" by (cases ba)
    have "split_sep sep s = b # split_sep sep a"
      using sep Some ba by (subst split_sep_unfold) auto
    moreover have "split_sep sep a = (case find_sep sep a of None \<Rightarrow> [a] | Some (b', a') \<Rightarrow> b' # split_sep sep a')"
      using sep by (rule split_sep_unfold)
    ultimately show ?thesis using Some ba
      by (auto simp: py_index_def split: option.splits)
  qed
qed

lemma split_max_single:
  "c \<in> set s \<Longrightarrow> split_max [c] (Suc 0) s = [takeWhile (\<lambda>x. x \<noteq> c) s, tl (dropWhile (\<lambda>x. x \<noteq> c) s)]"
  by (simp add: find_sep_single)

lemma split_ws_Nil_iff: "split_ws s = [] \<longleftrightarrow> is_blank s"
proof -
  have "dropWhile is_space s = [] \<longleftrightarrow> list_all is_space s"
    by (simp add: dropWhile_eq_Nil_conv list_all_iff)
  moreover have "split_ws s = [] \<longleftrightarrow> dropWhile is_space s = []"
    by (subst split_ws.simps) (simp del: dropWhile_eq_Nil_conv split: list.splits)
  ultimately show ?thesis
    by (simp add: is_blank_def)
qed

lemma takeWhile_absent: "c \<notin> set s \<Longrightarrow> takeWhile (\<lambda>x. x \<noteq> c) s = s"
  by (induction s) auto

lemma find_sep_single_before:
  "(case find_sep [c] s of None \<Rightarrow> s | Some (b, a) \<Rightarrow> b) = takeWhile (\<lambda>x. x \<noteq> c) s"
  by (simp add: find_sep_single takeWhile_absent)

lemma split_hash_first:
  "py_index (split_sep ''#'' v) 0 = Inr (takeWhile (\<lambda>c. c \<noteq> CHR ''#'') v)"
proof (cases "CHR ''#'' \<in> set v")
  case True
  then show ?thesis by (simp add: split_sep_first find_sep_single)
next
  case False
  then have tw: "takeWhile (\<lambda>c. c \<noteq> CHR ''#'') v = v"
    by (auto simp: takeWhile_eq_all_conv)
  from False have "py_index (split_sep ''#'' v) 0 = Inr v"
    by (simp add: split_sep_first find_sep_single)
  then show ?thesis unfolding tw .
qed

lemma active_Some: "active x = Some s \<Longrightarrow> x = Some s"
  by (auto simp: active_def split: option.splits if_splits)

lemma bind_err_Inr:
  "bind_err r f = Inr y \<longleftrightarrow> (\<exists>x. r = Inr x \<and> f x = Inr y)"
  by (cases r) (simp_all add: bind_err_def)

lemma py_getitem_Inr: "py_getitem d k = Inr v \<longleftrightarrow> map_of d k = Some v"
  by (simp add: py_getitem_def split: option.splits)

lemma for_lines_invariant:
  assumes step: "\<And>s l s'. body s l = Inr s' \<Longrightarrow> I s \<Longrightarrow> I s'"
  shows "for_lines body st ls = Inr st' \<Longrightarrow> I st \<Longrightarrow> I st'"
proof (induction ls arbitrary: st)
  case Nil
  then show ?case by simp
next
  case (Cons l ls)
  from Cons.prems(1) obtain s1 where s1: "body st l = Inr s1" "for_lines body s1 ls = Inr st'"
    by (auto split: sum.splits)
  from step [OF s1(1) Cons.prems(2)] have "I s1" .
  from Cons.IH [OF s1(2) this] show ?case .
qed

section \<open>Facts about the loops\<close>

subsection \<open>Grid\<close>

lemma grid_line_spec: "grid_line d line = Inr (grid_add_spec d line)"
  by (simp add: grid_line_def grid_add_spec_def grid_entry_spec_def find_sep_single
      split_hash_first bind_err_simps)

lemma for_lines_grid: "for_lines grid_line d ls = Inr (foldl grid_add_spec d ls)"
  by (induction ls arbitrary: d) (simp_all add: grid_line_spec)

subsection \<open>Diagnostics\<close>

lemma diagn_line_inv: "diagn_line st line = Inr st' \<Longrightarrow> diagn_inv st \<Longrightarrow> diagn_inv st'"
  by (auto simp: diagn_line_def diagn_inv_def bind_err_Inr py_getitem_Inr update_conv' Let_def
      dest: active_Some split: if_splits option.splits)

lemma diagn_reach_inv:
  assumes "for_lines diagn_line diagn_init pre = Inr st"
  shows "diagn_inv st"
proof -
  have "diagn_inv diagn_init" by (simp add: diagn_init_def diagn_inv_def)
  with for_lines_invariant [where body = diagn_line and I = diagn_inv, OF _ assms]
  show ?thesis by (blast intro: diagn_line_inv)
qed

lemma diagn_reach_section:
  assumes "for_lines diagn_line diagn_init pre = Inr st"
    and "active (diagn_current_section st) = Some sec"
  shows "\<exists>rows. map_of (diagn_dict st) sec = Some rows"
  using diagn_reach_inv [OF assms(1)] active_Some [OF assms(2)]
  by (auto simp: diagn_inv_def)

lemma diagn_line_data:
  assumes "active (diagn_current_section st) = Some sec"
    and "\<not> startswith line ''!''" and "\<not> startswith line ''#''" and "\<not> is_blank line"
    and "\<not> startswith line ''BEGIN''" and "\<not> startswith line ''END''"
  shows "diagn_line st line =
     bind_err (py_getitem (diagn_dict st) sec) (\<lambda>rows.
     bind_err (diagn_row (split_ws line)) (\<lambda>r.
       Inr (st\<lparr>diagn_dict := AList.update sec (rows @ [r]) (diagn_dict st)\<rparr>)))"
  using assms by (simp add: diagn_line_def Let_def)

lemma diagn_row_enough:
  "7 \<le> length parts \<Longrightarrow>
   diagn_row parts =
     Inr \<lparr>Name = parts ! 0, Spec = parts ! 1, ExtNr = parts ! 2, Cat = parts ! 3,
          Hier = parts ! 4, Dim = parts ! 5, OutUnit = parts ! 6,
          LongName = join '' '' (drop 7 parts)\<rparr>"
  by (auto simp: diagn_row_def py_index_def bind_err_simps)

lemma diagn_row_short: "length parts < 7 \<Longrightarrow> diagn_row parts = Inl IndexError"
  by (simp add: diagn_row_def py_index_def bind_err_def)

subsection \<open>Species\<close>

lemma species_line_inv: "species_line st line = Inr st' \<Longrightarrow> species_inv st \<Longrightarrow> species_inv st'"
  by (auto simp: species_line_def species_inv_def bind_err_Inr py_getitem_Inr update_conv' Let_def
      dest: active_Some split: if_splits option.splits)

lemma species_reach_inv:
  assumes "for_lines species_line species_init pre = Inr st"
  shows "species_inv st"
proof -
  have "species_inv species_init" by (simp add: species_init_def species_inv_def)
  with for_lines_invariant [where body = species_line and I = species_inv, OF _ assms]
  show ?thesis by (blast intro: species_line_inv)
qed

lemma species_reach_section:
  assumes "for_lines species_line species_init pre = Inr st"
    and "active (species_current_section st) = Some sec"
  shows "\<exists>body. map_of (species_dict st) sec = Some body"
  using species_reach_inv [OF assms(1)] active_Some [OF assms(2)]
  by (auto simp: species_inv_def)

lemma species_line_data:
  assumes "active (species_current_section st) = Some sec"
    and "\<not> startswith line ''!''" and "\<not> startswith line ''#''" and "\<not> is_blank line"
    and "\<not> startswith line ''BEGIN''" and "\<not> startswith line ''END''"
  shows "species_line st line =
     bind_err (species_row (split_ws line)) (\<lambda>r.
     bind_err (py_getitem (species_dict st) sec) (\<lambda>body.
     bind_err (py_index (split_ws line) 1) (\<lambda>p1.
       Inr (st\<lparr>species_dict :=
         AList.update sec (AList.update p1 r body) (species_dict st)\<rparr>))))"
  using assms by (simp add: species_line_def Let_def)

lemma species_row_enough:
  "6 \<le> length parts \<Longrightarrow>
   species_row parts = Inr \<lparr>MW = parts ! 2, K0 = parts ! 3, CR = parts ! 4, pKA = parts ! 5\<rparr>"
  by (auto simp: species_row_def py_index_def bind_err_simps)

subsection \<open>Main configuration\<close>

lemma config_key_value_keeps:
  assumes "config_key_value st sec line = Inr st'"
  shows "current_section st' = current_section st
    \<and> (\<forall>k. map_of (config_dict st) k \<noteq> None \<longrightarrow> map_of (config_dict st') k \<noteq> None)"
  using assms
  by (auto simp: config_key_value_def bind_err_Inr py_getitem_Inr update_conv'
      split: list.splits)

lemma config_data_row_keeps:
  assumes "config_data_row st sec line = Inr st'"
  shows "current_section st' = current_section st
    \<and> (\<forall>k. map_of (config_dict st) k \<noteq> None \<longrightarrow> map_of (config_dict st') k \<noteq> None)"
proof (cases "active (current_sub_section st)")
  case None
  with assms show ?thesis
    by (auto simp: config_data_row_def bind_err_Inr py_getitem_Inr update_conv' Let_def)
next
  case (Some sub)
  with assms obtain body v where
    bv: "map_of (config_dict st) sec = Some body" "map_of body sub = Some v"
    and r: "(case v of Scalar x \<Rightarrow> Inl AttributeError
             | Rows rows \<Rightarrow> Inr (st\<lparr>config_dict :=
                 AList.update sec (AList.update sub (Rows (rows @ [split_ws line])) body)
                   (config_dict st)\<rparr>)) = Inr st'"
    by (auto simp: config_data_row_def bind_err_Inr py_getitem_Inr Let_def)
  from r show ?thesis
    by (cases v) (auto simp: update_conv')
qed

lemma config_line_inv:
  assumes "config_line st line = Inr st'" and "config_inv st"
  shows "config_inv st'"
proof -
  consider (same) "st' = st"
    | (opened) name where "st' = st\<lparr>current_section := Some name,
          config_dict := AList.update name [] (config_dict st)\<rparr>"
    | (closed) "st' = st\<lparr>current_section := None, current_sub_section := None\<rparr>"
    | (kv) sec where "config_key_value st sec line = Inr st'"
    | (row) sec where "config_data_row st sec line = Inr st'"
  proof (cases "startswith line ''!'' \<or> startswith line ''#'' \<or> is_blank line")
    case True
    with assms(1) have "st' = st"
      by (auto simp: config_line_def split: if_splits)
    with same show ?thesis .
  next
    case skip: False
    show ?thesis
    proof (cases "startswith line ''BEGIN SECTION''")
      case True
      with skip assms(1) obtain name where "st' = st\<lparr>current_section := Some name,
          config_dict := AList.update name [] (config_dict st)\<rparr>"
        by (auto simp: config_line_def bind_err_Inr split: if_splits)
      with opened show ?thesis .
    next
      case nb: False
      show ?thesis
      proof (cases "startswith line ''END SECTION''")
        case True
        with skip nb assms(1) have "st' = st\<lparr>current_section := None, current_sub_section := None\<rparr>"
          by (auto simp: config_line_def split: if_splits)
        with closed show ?thesis .
      next
        case ne: False
        show ?thesis
        proof (cases "startswith line ''%'' \<or> active (current_section st) = None")
          case True
          with skip nb ne assms(1) have "st' = st"
      by (auto simp: config_line_def split: if_splits)
          with same show ?thesis .
        next
          case False
          then obtain sec where sec: "active (current_section st) = Some sec" by auto
          with False skip nb ne assms(1)
          have "config_key_value st sec line = Inr st' \<or> config_data_row st sec line = Inr st'"
            by (auto simp: config_line_def split: if_splits)
          with kv row show ?thesis by blast
        qed
      qed
    qed
  qed
  then show ?thesis
  proof cases
    case same
    with assms(2) show ?thesis by simp
  next
    case opened
    then show ?thesis by (simp add: config_inv_def update_conv')
  next
    case closed
    then show ?thesis by (simp add: config_inv_def)
  next
    case kv
    from config_key_value_keeps [OF this] assms(2) show ?thesis
      by (auto simp: config_inv_def split: option.splits)
  next
    case row
    from config_data_row_keeps [OF this] assms(2) show ?thesis
      by (auto simp: config_inv_def split: option.splits)
  qed
qed

lemma config_reach_inv:
  assumes "for_lines config_line config_init pre = Inr st"
  shows "config_inv st"
proof -
  have "config_inv config_init" by (simp add: config_init_def config_inv_def)
  with for_lines_invariant [where body = config_line and I = config_inv, OF _ assms]
  show ?thesis by (blast intro: config_line_inv)
qed

lemma config_reach_section:
  assumes "for_lines config_line config_init pre = Inr st"
    and "active (current_section st) = Some sec"
  shows "\<exists>body. map_of (config_dict st) sec = Some body"
  using config_reach_inv [OF assms(1)] active_Some [OF assms(2)]
  by (auto simp: config_inv_def)

lemma config_line_data:
  assumes "active (current_section st) = Some sec"
    and "\<not> startswith line ''!''" and "\<not> startswith line ''#''" and "\<not> is_blank line"
    and "\<not> startswith line ''BEGIN SECTION''" and "\<not> startswith line ''END SECTION''"
    and "\<not> startswith line ''%''"
  shows "config_line st line =
     (if CHR '':'' \<in> set line then config_key_value st sec line else config_data_row st sec line)"
  using assms by (simp add: config_line_def)

lemma config_data_row_no_index_error:
  assumes "split_ws line \<noteq> []"
  shows "config_data_row st sec line \<noteq> Inl IndexError"
proof (cases "active (current_sub_section st)")
  case None
  from assms have "py_index (split_ws line) 0 = Inr (hd (split_ws line))"
    by (simp add: py_index_def hd_conv_nth)
  with None show ?thesis
    by (simp add: config_data_row_def Let_def bind_err_def py_getitem_def split: option.splits)
next
  case (Some sub)
  then show ?thesis
    by (simp add: config_data_row_def Let_def bind_err_def py_getitem_def
        split: option.splits body_value.splits)
qed

lemma startswith_END:
  assumes "startswith line ''END''"
  shows "\<not> startswith line ''!''" "\<not> startswith line ''#''" "\<not> is_blank line"
    "\<not> startswith line ''BEGIN''" "\<not> startswith line ''BEGIN SECTION''"
    "\<not> startswith line ''%''"
  using assms
  by (auto simp: startswith_Cons_iff startswith_Nil is_blank_def is_space_def)

lemma find_sep_begin_section:
  "find_sep ''SECTION'' (''BEGIN SECTION'' @ rest) = Some (''BEGIN '', rest)"
  by (simp add: startswith_def)

lemma config_section_name_begin:
  "config_section_name (''BEGIN SECTION'' @ rest) =
     Inr (strip (case find_sep ''SECTION'' rest of None \<Rightarrow> rest | Some (b, a) \<Rightarrow> b))"
proof -
  have ne: "''SECTION'' \<noteq> []" by simp
  show ?thesis
    unfolding config_section_name_def split_sep_second [OF ne] find_sep_begin_section
    by (simp add: bind_err_simps)
qed

lemma begin_section_name_space:
  "begin_section_name line =
     (if CHR '' '' \<in> set line
      then Inr (strip (takeWhile (\<lambda>c. c \<noteq> CHR '' '')
                         (tl (dropWhile (\<lambda>c. c \<noteq> CHR '' '') line))))
      else Inl IndexError)"
proof -
  have ne: "'' '' \<noteq> []" by simp
  show ?thesis
    unfolding begin_section_name_def split_sep_second [OF ne] find_sep_single_before
    by (simp add: find_sep_single bind_err_simps)
qed

section \<open>Verified properties\<close>

subsection \<open>C1: a second BEGIN SECTION and the subsection cursor\<close>

text \<open>
  C1.  The claim is that a \<^verbatim>\<open>BEGIN SECTION\<close> line clears the current subsection, so
  that the first data row of the new section names a fresh subsection.  The loop sets the
  current section and an empty body, but only \<^verbatim>\<open>END SECTION\<close> resets
  \<^verbatim>\<open>current_sub_section\<close>.  After \<^verbatim>\<open>BEGIN SECTION A\<close>, \<^verbatim>\<open>x 1\<close>,
  \<^verbatim>\<open>BEGIN SECTION B\<close> the cursor still holds \<^verbatim>\<open>x\<close>, and the row \<^verbatim>\<open>y 2\<close> is appended
  to \<^verbatim>\<open>config_dict['B']['x']\<close>, which does not exist: KeyError.
\<close>

theorem config_stale_subsection:
  "for_lines config_line config_init
     (readlines ''BEGIN SECTION A\<newline>x 1\<newline>BEGIN SECTION B\<newline>'') =
     Inr \<lparr>config_dict = [(''A'', [(''x'', Rows [[''x'', ''1'']])]), (''B'', [])],
          current_section = Some ''B'', current_sub_section = Some ''x''\<rparr>
   \<and> parse_hemco_config ''BEGIN SECTION A\<newline>x 1\<newline>BEGIN SECTION B\<newline>y 2\<newline>'' =
     Inl KeyError"
  by code_simp


subsection \<open>C2: lines that start with END\<close>

text \<open>
  C2, as the code has it.  In the diagnostics and species dialects every line that starts
  with \<^verbatim>\<open>END\<close> ends the section: the current section becomes \<^verbatim>\<open>None\<close>, nothing else
  changes.  In the main dialect a line that starts with \<^verbatim>\<open>END SECTION\<close> clears the
  current section and the current subsection; a line that starts with \<^verbatim>\<open>END\<close> but not
  with \<^verbatim>\<open>END SECTION\<close> is no section end: inside a section it is handled as a
  key:value line or as a data row, outside it is dropped.
\<close>

theorem section_end_lines:
  "(startswith line ''END'' \<longrightarrow>
      diagn_line dst line = Inr (dst\<lparr>diagn_current_section := None\<rparr>)
      \<and> species_line sst line = Inr (sst\<lparr>species_current_section := None\<rparr>))
   \<and> (startswith line ''END SECTION'' \<longrightarrow>
      config_line st line = Inr (st\<lparr>current_section := None, current_sub_section := None\<rparr>))
   \<and> (startswith line ''END'' \<and> \<not> startswith line ''END SECTION'' \<longrightarrow>
      config_line st line =
        (case active (current_section st) of
           None \<Rightarrow> Inr st
         | Some sec \<Rightarrow>
             if CHR '':'' \<in> set line then config_key_value st sec line
             else config_data_row st sec line))"
proof (intro conjI impI)
  assume e: "startswith line ''END''"
  from startswith_END [OF e] e
  show "diagn_line dst line = Inr (dst\<lparr>diagn_current_section := None\<rparr>)"
    by (simp add: diagn_line_def)
  from startswith_END [OF e] e
  show "species_line sst line = Inr (sst\<lparr>species_current_section := None\<rparr>)"
    by (simp add: species_line_def)
next
  assume es: "startswith line ''END SECTION''"
  then have e: "startswith line ''END''"
    by (auto simp: startswith_Cons_iff startswith_Nil)
  from startswith_END [OF e] es
  show "config_line st line = Inr (st\<lparr>current_section := None, current_sub_section := None\<rparr>)"
    by (simp add: config_line_def)
next
  assume "startswith line ''END'' \<and> \<not> startswith line ''END SECTION''"
  then have e: "startswith line ''END''" and nes: "\<not> startswith line ''END SECTION''"
    by simp_all
  from startswith_END [OF e] nes
  show "config_line st line =
        (case active (current_section st) of
           None \<Rightarrow> Inr st
         | Some sec \<Rightarrow>
             if CHR '':'' \<in> set line then config_key_value st sec line
             else config_data_row st sec line)"
    by (simp add: config_line_def)
qed


text \<open>
  The claim as stated fails in the main dialect: after \<^verbatim>\<open>BEGIN SECTION A\<close> the line
  \<^verbatim>\<open>END\<close> leaves section \<^verbatim>\<open>A\<close> current and becomes the row of a subsection \<^verbatim>\<open>END\<close>.
\<close>

theorem section_end_counterexample:
  "for_lines config_line config_init (readlines ''BEGIN SECTION A\<newline>END\<newline>'') =
     Inr \<lparr>config_dict = [(''A'', [(''END'', Rows [[''END'']])])],
          current_section = Some ''A'', current_sub_section = Some ''END''\<rparr>"
  by code_simp


theorem section_end_lines_witness:
  "diagn_line \<lparr>diagn_dict = [(''A'', [])], diagn_current_section = Some ''A''\<rparr> ''END\<newline>'' =
     Inr \<lparr>diagn_dict = [(''A'', [])], diagn_current_section = None\<rparr>
   \<and> species_line \<lparr>species_dict = [(''A'', [])], species_current_section = Some ''A''\<rparr>
        ''END OF DATA\<newline>'' =
     Inr \<lparr>species_dict = [(''A'', [])], species_current_section = None\<rparr>
   \<and> config_line \<lparr>config_dict = [(''A'', [])], current_section = Some ''A'',
        current_sub_section = Some ''x''\<rparr> ''END SECTION A\<newline>'' =
     Inr \<lparr>config_dict = [(''A'', [])], current_section = None, current_sub_section = None\<rparr>
   \<and> config_line \<lparr>config_dict = [(''A'', [])], current_section = Some ''A'',
        current_sub_section = None\<rparr> ''END\<newline>'' =
     config_data_row \<lparr>config_dict = [(''A'', [])], current_section = Some ''A'',
        current_sub_section = None\<rparr> ''A'' ''END\<newline>''"
proof -
  have e: "startswith ''END\<newline>'' ''END''" "startswith ''END OF DATA\<newline>'' ''END''"
    "startswith ''END SECTION A\<newline>'' ''END SECTION''"
    "\<not> startswith ''END\<newline>'' ''END SECTION''"
    by (simp_all add: startswith_def)
  from section_end_lines [of "''END\<newline>''"
      "\<lparr>diagn_dict = [(''A'', [])], diagn_current_section = Some ''A''\<rparr>"] e
  have a: "diagn_line \<lparr>diagn_dict = [(''A'', [])], diagn_current_section = Some ''A''\<rparr> ''END\<newline>'' =
     Inr \<lparr>diagn_dict = [(''A'', [])], diagn_current_section = None\<rparr>"
    by simp
  from section_end_lines [of "''END OF DATA\<newline>''" _
      "\<lparr>species_dict = [(''A'', [])], species_current_section = Some ''A''\<rparr>"] e
  have b: "species_line \<lparr>species_dict = [(''A'', [])], species_current_section = Some ''A''\<rparr>
        ''END OF DATA\<newline>'' =
     Inr \<lparr>species_dict = [(''A'', [])], species_current_section = None\<rparr>"
    by simp
  from section_end_lines [of "''END SECTION A\<newline>''" _ _
      "\<lparr>config_dict = [(''A'', [])], current_section = Some ''A'',
        current_sub_section = Some ''x''\<rparr>"] e
  have c: "config_line \<lparr>config_dict = [(''A'', [])], current_section = Some ''A'',
        current_sub_section = Some ''x''\<rparr> ''END SECTION A\<newline>'' =
     Inr \<lparr>config_dict = [(''A'', [])], current_section = None, current_sub_section = None\<rparr>"
    by simp
  from section_end_lines [of "''END\<newline>''" _ _
      "\<lparr>config_dict = [(''A'', [])], current_section = Some ''A'',
        current_sub_section = None\<rparr>"] e
  have d: "config_line \<lparr>config_dict = [(''A'', [])], current_section = Some ''A'',
        current_sub_section = None\<rparr> ''END\<newline>'' =
     config_data_row \<lparr>config_dict = [(''A'', [])], current_section = Some ''A'',
        current_sub_section = None\<rparr> ''A'' ''END\<newline>''"
    by (simp add: active_def)
  from a b c d show ?thesis by simp
qed


subsection \<open>C3: the section name of a BEGIN line\<close>

text \<open>
  C3, as the code has it.  Main dialect: when the text after \<^verbatim>\<open>BEGIN SECTION\<close> contains
  no further \<^verbatim>\<open>SECTION\<close>, the name is that whole text, trimmed.  Diagnostics and species
  dialects: when the line contains a space, the name is the text between the first and
  the second space of the line, trimmed, so only the first word of a multi-word name; it
  is the whole trimmed text after \<^verbatim>\<open>BEGIN\<close> when the line is \<^verbatim>\<open>BEGIN\<close>, one space and
  a name without a space.
\<close>

theorem section_name_extraction:
  "(startswith line ''BEGIN SECTION'' \<and> (\<nexists>p q. drop 13 line = p @ ''SECTION'' @ q) \<longrightarrow>
      config_section_name line = Inr (strip (drop 13 line)))
   \<and> (CHR '' '' \<in> set line \<longrightarrow>
      begin_section_name line =
        Inr (strip (takeWhile (\<lambda>c. c \<noteq> CHR '' '')
                      (tl (dropWhile (\<lambda>c. c \<noteq> CHR '' '') line)))))
   \<and> (startswith line ''BEGIN '' \<and> CHR '' '' \<notin> set (drop 6 line) \<longrightarrow>
      begin_section_name line = Inr (strip (drop 5 line)))"
proof (intro conjI impI)
  assume "startswith line ''BEGIN SECTION'' \<and> (\<nexists>p q. drop 13 line = p @ ''SECTION'' @ q)"
  then have b: "startswith line ''BEGIN SECTION''"
    and absent: "\<nexists>p q. drop 13 line = p @ ''SECTION'' @ q"
    by simp_all
  have len: "length ''BEGIN SECTION'' = 13" by simp
  from startswith_append [OF b] have line: "line = ''BEGIN SECTION'' @ drop 13 line"
    unfolding len .
  have ne: "''SECTION'' \<noteq> []" by simp
  from find_sep_None_iff [OF ne, of "drop 13 line"] absent
  have "find_sep ''SECTION'' (drop 13 line) = None"
    by (rule iffD2)
  with config_section_name_begin [of "drop 13 line"] line
  show "config_section_name line = Inr (strip (drop 13 line))"
    by simp
next
  assume "CHR '' '' \<in> set line"
  then show "begin_section_name line =
        Inr (strip (takeWhile (\<lambda>c. c \<noteq> CHR '' '')
                      (tl (dropWhile (\<lambda>c. c \<noteq> CHR '' '') line))))"
    by (simp add: begin_section_name_space)
next
  assume "startswith line ''BEGIN '' \<and> CHR '' '' \<notin> set (drop 6 line)"
  then have b: "startswith line ''BEGIN ''" and ns: "CHR '' '' \<notin> set (drop 6 line)"
    by simp_all
  have len: "length ''BEGIN '' = 6" by simp
  from startswith_append [OF b] have line: "line = ''BEGIN '' @ drop 6 line"
    unfolding len .
  from ns have tw: "takeWhile (\<lambda>c. c \<noteq> CHR '' '') (drop 6 line) = drop 6 line"
    by (rule takeWhile_absent)
  have name: "begin_section_name (''BEGIN '' @ drop 6 line) = Inr (strip (drop 6 line))"
    unfolding begin_section_name_space by (simp add: tw)
  have "drop 5 (''BEGIN '' @ drop 6 line) = CHR '' '' # drop 6 line"
    by simp
  then have "strip (drop 5 (''BEGIN '' @ drop 6 line)) = strip (drop 6 line)"
    by (simp add: strip_def is_space_def)
  with name line show "begin_section_name line = Inr (strip (drop 5 line))"
    by simp
qed


text \<open>
  The claim as stated fails: a main-dialect name that contains \<^verbatim>\<open>SECTION\<close> is cut
  there, and \<^verbatim>\<open>BEGIN My Section Data\<close> yields \<^verbatim>\<open>My\<close>.
\<close>

theorem section_name_counterexample:
  "config_section_name ''BEGIN SECTION MY SECTION DATA\<newline>'' = Inr ''MY''
   \<and> strip (drop (length ''BEGIN SECTION'') ''BEGIN SECTION MY SECTION DATA\<newline>'') = ''MY SECTION DATA''
   \<and> begin_section_name ''BEGIN My Section Data\<newline>'' = Inr ''My''
   \<and> strip (drop (length ''BEGIN'') ''BEGIN My Section Data\<newline>'') = ''My Section Data''"
  by code_simp


theorem section_name_extraction_witness:
  "config_section_name ''BEGIN SECTION BASE EMISSIONS\<newline>'' =
     Inr (strip (drop 13 ''BEGIN SECTION BASE EMISSIONS\<newline>''))
   \<and> begin_section_name ''BEGIN My Section Data\<newline>'' =
     Inr (strip (takeWhile (\<lambda>c. c \<noteq> CHR '' '')
                   (tl (dropWhile (\<lambda>c. c \<noteq> CHR '' '') ''BEGIN My Section Data\<newline>''))))
   \<and> begin_section_name ''BEGIN Species\<newline>'' = Inr (strip (drop 5 ''BEGIN Species\<newline>''))"
proof -
  let ?m = "''BEGIN SECTION BASE EMISSIONS\<newline>''"
  let ?d = "''BEGIN My Section Data\<newline>''"
  let ?s = "''BEGIN Species\<newline>''"
  have m: "startswith ?m ''BEGIN SECTION''"
    by (simp add: startswith_def)
  have none: "find_sep ''SECTION'' (drop 13 ?m) = None"
    by code_simp
  have ne: "''SECTION'' \<noteq> []"
    by simp
  from find_sep_None_iff [OF ne, of "drop 13 ?m"] none
  have absent: "\<nexists>p q. drop 13 ?m = p @ ''SECTION'' @ q"
    by (rule iffD1)
  have d: "CHR '' '' \<in> set ?d"
    by simp
  have s: "startswith ?s ''BEGIN '' \<and> CHR '' '' \<notin> set (drop 6 ?s)"
    by (simp add: startswith_def)
  from section_name_extraction [of ?m] m absent
  have a: "config_section_name ?m = Inr (strip (drop 13 ?m))"
    by blast
  from section_name_extraction [of ?d] d
  have b: "begin_section_name ?d =
      Inr (strip (takeWhile (\<lambda>c. c \<noteq> CHR '' '') (tl (dropWhile (\<lambda>c. c \<noteq> CHR '' '') ?d))))"
    by blast
  from section_name_extraction [of ?s] s
  have c: "begin_section_name ?s = Inr (strip (drop 5 ?s))"
    by blast
  from a b c show ?thesis by blast
qed


subsection \<open>C4: a diagnostics row with fewer than seven tokens\<close>

text \<open>
  C4, as the code has it.  A data row with fewer than seven tokens inside an active
  section of the diagnostics dialect raises IndexError (the loop has no check of the
  number of tokens and no error of its own that carries the line or its number); the
  exception ends the parse, whatever lines follow, and no tree is returned.
\<close>

theorem diagn_short_row_index_error:
  assumes "for_lines diagn_line diagn_init pre = Inr st"
    and "active (diagn_current_section st) = Some sec"
    and "\<not> startswith line ''!''" and "\<not> startswith line ''#''" and "\<not> is_blank line"
    and "\<not> startswith line ''BEGIN''" and "\<not> startswith line ''END''"
    and "length (split_ws line) < 7"
  shows "diagn_line st line = Inl IndexError
       \<and> for_lines diagn_line diagn_init (pre @ line # post) = Inl IndexError"
proof -
  from diagn_reach_section [OF assms(1,2)] obtain rows
    where rows: "map_of (diagn_dict st) sec = Some rows" by blast
  have step: "diagn_line st line = Inl IndexError"
    unfolding diagn_line_data [OF assms(2-7)] diagn_row_short [OF assms(8)]
    using rows by (simp add: py_getitem_def bind_err_simps)
  then have "for_lines diagn_line diagn_init (pre @ line # post) = Inl IndexError"
    by (simp add: for_lines_append assms(1) bind_err_simps)
  with step show ?thesis by simp
qed


text \<open>The claim as stated fails: the fault is the out-of-range index.\<close>

theorem diagn_short_row_counterexample:
  "parse_hemco_diagn ''BEGIN Emis\<newline>EmisNO NO 0\<newline>END\<newline>'' = Inl IndexError"
  by code_simp


theorem diagn_short_row_index_error_witness:
  "diagn_line \<lparr>diagn_dict = [(''Emis'', [])], diagn_current_section = Some ''Emis''\<rparr>
      ''EmisNO NO 0\<newline>'' = Inl IndexError
   \<and> for_lines diagn_line diagn_init
        ([''BEGIN Emis\<newline>''] @ ''EmisNO NO 0\<newline>'' # [''END\<newline>'']) = Inl IndexError"
proof -
  let ?line = "''EmisNO NO 0\<newline>''"
  let ?st = "\<lparr>diagn_dict = [(''Emis'', [])], diagn_current_section = Some ''Emis''\<rparr>"
  have parts: "split_ws ?line = [''EmisNO'', ''NO'', ''0'']"
    by code_simp
  have reach: "for_lines diagn_line diagn_init [''BEGIN Emis\<newline>''] = Inr ?st"
    by code_simp
  have act: "active (diagn_current_section ?st) = Some ''Emis''"
    by (simp add: active_def)
  have l: "\<not> startswith ?line ''!''" "\<not> startswith ?line ''#''" "\<not> is_blank ?line"
    "\<not> startswith ?line ''BEGIN''" "\<not> startswith ?line ''END''"
    by (simp_all add: startswith_def is_blank_def is_space_def)
  have len: "length (split_ws ?line) < 7"
    unfolding parts by simp
  from diagn_short_row_index_error [OF reach act l len] show ?thesis .
qed


subsection \<open>C5: lines that start with a percent sign\<close>

text \<open>
  C5.  The claim is that only the bare line \<^verbatim>\<open>%\<close> is skipped, as the comment in the
  source says (\<^verbatim>\<open>Skip lines with just '%'\<close>).  The test in the source is
  \<^verbatim>\<open>line.startswith('%')\<close>: inside section \<^verbatim>\<open>A\<close> the lines \<^verbatim>\<open>%key: value\<close> and
  \<^verbatim>\<open>%%% row of tokens\<close> are skipped as well and the section stays empty.
\<close>

theorem config_percent_prefix_skipped:
  "parse_hemco_config
     ''BEGIN SECTION A\<newline>%\<newline>%key: value\<newline>%%% row of tokens\<newline>END SECTION\<newline>'' =
     Inr [(''A'', [])]"
  by code_simp


subsection \<open>C6: the species scenario\<close>

text \<open>
  C6.  The species parser, run on the three lines \<^verbatim>\<open>BEGIN Species\<close>,
  \<^verbatim>\<open>1 NO2 46.0 1e-5 0.0 3.4\<close>, \<^verbatim>\<open>END\<close>, returns the tree with the single section
  \<^verbatim>\<open>Species\<close> whose single entry has the key \<^verbatim>\<open>NO2\<close> (the second token; the first
  token \<^verbatim>\<open>1\<close> appears nowhere) and the fields MW, K0, CR, pKA from tokens three to six.
\<close>

theorem species_scenario:
  "parse_hemco_species ''BEGIN Species\<newline>1 NO2 46.0 1e-5 0.0 3.4\<newline>END'' =
     Inr [(''Species'',
           [(''NO2'', \<lparr>MW = ''46.0'', K0 = ''1e-5'', CR = ''0.0'', pKA = ''3.4''\<rparr>)])]"
  by code_simp


subsection \<open>C7: the record of a diagnostics row\<close>

text \<open>
  C7.  For a data row of the diagnostics dialect with at least seven tokens, read in a
  state the loop can reach with a section active: the record has Name, Spec, ExtNr, Cat,
  Hier, Dim, OutUnit from the first seven tokens in this order, LongName is the remaining
  tokens joined with single spaces, the empty string when there are exactly seven tokens,
  and the loop appends this record to the rows of the current section.
\<close>

theorem diagn_row_fields:
  assumes "for_lines diagn_line diagn_init pre = Inr st"
    and "active (diagn_current_section st) = Some sec"
    and "\<not> startswith line ''!''" and "\<not> startswith line ''#''" and "\<not> is_blank line"
    and "\<not> startswith line ''BEGIN''" and "\<not> startswith line ''END''"
    and "parts = split_ws line" and "7 \<le> length parts"
  shows "diagn_row parts =
           Inr \<lparr>Name = parts ! 0, Spec = parts ! 1, ExtNr = parts ! 2, Cat = parts ! 3,
                Hier = parts ! 4, Dim = parts ! 5, OutUnit = parts ! 6,
                LongName = join '' '' (drop 7 parts)\<rparr>
       \<and> (length parts = 7 \<longrightarrow> join '' '' (drop 7 parts) = [])
       \<and> (\<exists>rows. map_of (diagn_dict st) sec = Some rows
            \<and> diagn_line st line =
                Inr (st\<lparr>diagn_dict :=
                  AList.update sec
                    (rows @ [\<lparr>Name = parts ! 0, Spec = parts ! 1, ExtNr = parts ! 2,
                              Cat = parts ! 3, Hier = parts ! 4, Dim = parts ! 5,
                              OutUnit = parts ! 6, LongName = join '' '' (drop 7 parts)\<rparr>])
                    (diagn_dict st)\<rparr>))"
proof -
  note row = diagn_row_enough [OF assms(9)]
  from diagn_reach_section [OF assms(1,2)] obtain rows
    where rows: "map_of (diagn_dict st) sec = Some rows" by blast
  have "diagn_line st line =
      Inr (st\<lparr>diagn_dict :=
        AList.update sec
          (rows @ [\<lparr>Name = parts ! 0, Spec = parts ! 1, ExtNr = parts ! 2,
                    Cat = parts ! 3, Hier = parts ! 4, Dim = parts ! 5,
                    OutUnit = parts ! 6, LongName = join '' '' (drop 7 parts)\<rparr>])
          (diagn_dict st)\<rparr>)"
    unfolding diagn_line_data [OF assms(2-7)] assms(8) [symmetric] row
    using rows by (simp add: py_getitem_def bind_err_simps)
  with rows row show ?thesis by simp
qed


theorem diagn_row_fields_witness:
  "diagn_row (split_ws ''EmisNO NO 0 -1 -1 2 kg/m2/s NO emissions total\<newline>'') =
     Inr \<lparr>Name = ''EmisNO'', Spec = ''NO'', ExtNr = ''0'', Cat = ''-1'', Hier = ''-1'',
          Dim = ''2'', OutUnit = ''kg/m2/s'', LongName = ''NO emissions total''\<rparr>"
proof -
  let ?line = "''EmisNO NO 0 -1 -1 2 kg/m2/s NO emissions total\<newline>''"
  let ?st = "\<lparr>diagn_dict = [(''Emis'', [])], diagn_current_section = Some ''Emis''\<rparr>"
  have parts: "split_ws ?line =
      [''EmisNO'', ''NO'', ''0'', ''-1'', ''-1'', ''2'', ''kg/m2/s'', ''NO'', ''emissions'', ''total'']"
    by code_simp
  have reach: "for_lines diagn_line diagn_init [''BEGIN Emis\<newline>''] = Inr ?st"
    by code_simp
  have act: "active (diagn_current_section ?st) = Some ''Emis''"
    by (simp add: active_def)
  have l: "\<not> startswith ?line ''!''" "\<not> startswith ?line ''#''" "\<not> is_blank ?line"
    "\<not> startswith ?line ''BEGIN''" "\<not> startswith ?line ''END''"
    by (simp_all add: startswith_def is_blank_def is_space_def)
  have len: "7 \<le> length (split_ws ?line)"
    unfolding parts by simp
  from diagn_row_fields [OF reach act l refl len]
  have "diagn_row (split_ws ?line) =
      Inr \<lparr>Name = split_ws ?line ! 0, Spec = split_ws ?line ! 1, ExtNr = split_ws ?line ! 2,
           Cat = split_ws ?line ! 3, Hier = split_ws ?line ! 4, Dim = split_ws ?line ! 5,
           OutUnit = split_ws ?line ! 6, LongName = join '' '' (drop 7 (split_ws ?line))\<rparr>"
    by (rule conjunct1)
  then show ?thesis
    unfolding parts by simp
qed


subsection \<open>C8: the grid dialect\<close>

text \<open>
  C8.  The grid parser returns a flat mapping from strings to strings and never raises.
  Each line does what \<open>grid_add_spec\<close> says: a line that is not a comment, not blank and
  contains a colon stores one entry (the trimmed text before the first colon; the text
  after it up to the first hash sign, trimmed), every other line leaves the mapping as
  it is; the result for a file is the lines folded from the empty mapping.
\<close>

theorem grid_flat_mapping:
  "grid_line d line = Inr (grid_add_spec d line) \<and>
   parse_hemco_grid text = Inr (foldl grid_add_spec [] (readlines text)) \<and>
   map_of (grid_add_spec d line) =
     (case grid_entry_spec line of None \<Rightarrow> map_of d | Some (k, v) \<Rightarrow> (map_of d)(k \<mapsto> v))"
  by (simp add: grid_line_spec for_lines_grid parse_hemco_grid_def grid_add_spec_def
      update_conv' split: option.splits)


theorem grid_flat_mapping_witness:
  "grid_add_spec [(''NX'', ''1'')] ''NX : 72 # cells\<newline>'' = [(''NX'', ''72'')] \<and>
   foldl grid_add_spec [] (readlines ''! grid\<newline>XMIN: -180.0 # west\<newline>junk\<newline>'') =
     [(''XMIN'', ''-180.0'')]"
proof -
  have a: "grid_line [(''NX'', ''1'')] ''NX : 72 # cells\<newline>'' = Inr [(''NX'', ''72'')]"
    by code_simp
  have b: "parse_hemco_grid ''! grid\<newline>XMIN: -180.0 # west\<newline>junk\<newline>'' =
      Inr [(''XMIN'', ''-180.0'')]"
    by code_simp
  note w = grid_flat_mapping [of "[(''NX'', ''1'')]" "''NX : 72 # cells\<newline>''"
        "''! grid\<newline>XMIN: -180.0 # west\<newline>junk\<newline>''"]
  from w have "Inr [(''NX'', ''72'')] =
      (Inr (grid_add_spec [(''NX'', ''1'')] ''NX : 72 # cells\<newline>'') :: py_error + _)"
    unfolding a by (rule conjunct1)
  then have "[(''NX'', ''72'')] = grid_add_spec [(''NX'', ''1'')] ''NX : 72 # cells\<newline>''"
    by (simp only: sum.inject)
  then have c: "grid_add_spec [(''NX'', ''1'')] ''NX : 72 # cells\<newline>'' = [(''NX'', ''72'')]"
    by (rule sym)
  from w have "Inr [(''XMIN'', ''-180.0'')] =
      (Inr (foldl grid_add_spec [] (readlines ''! grid\<newline>XMIN: -180.0 # west\<newline>junk\<newline>''))
        :: py_error + _)"
    unfolding b by (rule conjunct1 [OF conjunct2])
  then have "[(''XMIN'', ''-180.0'')] =
      foldl grid_add_spec [] (readlines ''! grid\<newline>XMIN: -180.0 # west\<newline>junk\<newline>'')"
    by (simp only: sum.inject)
  then have d: "foldl grid_add_spec [] (readlines ''! grid\<newline>XMIN: -180.0 # west\<newline>junk\<newline>'') =
      [(''XMIN'', ''-180.0'')]"
    by (rule sym)
  from c d show ?thesis by (rule conjI)
qed


subsection \<open>C9: the first token of a main-dialect data row\<close>

text \<open>
  C9.  In the main dialect, a line that reaches the data-row branch (a section is
  active; the line is no comment, not blank, no section marker, does not start with a
  percent sign and has no colon) has at least one token, so \<^verbatim>\<open>parts[0]\<close> is defined and
  the line raises no IndexError; when no subsection is current, the line makes its first
  token the current subsection, with the row as its only element.
\<close>

theorem config_first_token_defined:
  assumes "for_lines config_line config_init pre = Inr st"
    and "active (current_section st) = Some sec"
    and "\<not> startswith line ''!''" and "\<not> startswith line ''#''" and "\<not> is_blank line"
    and "\<not> startswith line ''BEGIN SECTION''" and "\<not> startswith line ''END SECTION''"
    and "\<not> startswith line ''%''" and "CHR '':'' \<notin> set line"
  shows "split_ws line \<noteq> []
       \<and> py_index (split_ws line) 0 = Inr (hd (split_ws line))
       \<and> config_line st line \<noteq> Inl IndexError
       \<and> (active (current_sub_section st) = None \<longrightarrow>
            (\<exists>body. map_of (config_dict st) sec = Some body
              \<and> config_line st line =
                  Inr (st\<lparr>current_sub_section := Some (hd (split_ws line)),
                         config_dict :=
                           AList.update sec
                             (AList.update (hd (split_ws line)) (Rows [split_ws line]) body)
                             (config_dict st)\<rparr>)))"
proof -
  from assms(5) have ne: "split_ws line \<noteq> []"
    by (simp add: split_ws_Nil_iff)
  then have first: "py_index (split_ws line) 0 = Inr (hd (split_ws line))"
    by (simp add: py_index_def hd_conv_nth)
  have row: "config_line st line = config_data_row st sec line"
    using config_line_data [OF assms(2-8)] assms(9) by simp
  from config_data_row_no_index_error [OF ne] row
  have noerr: "config_line st line \<noteq> Inl IndexError" by simp
  from config_reach_section [OF assms(1,2)] obtain body
    where body: "map_of (config_dict st) sec = Some body" by blast
  have fresh: "config_line st line =
      Inr (st\<lparr>current_sub_section := Some (hd (split_ws line)),
             config_dict :=
               AList.update sec
                 (AList.update (hd (split_ws line)) (Rows [split_ws line]) body)
                 (config_dict st)\<rparr>)"
    if "active (current_sub_section st) = None"
    unfolding row using that body first
    by (simp add: config_data_row_def Let_def bind_err_simps py_getitem_def)
  from ne first noerr body fresh show ?thesis by blast
qed


theorem config_first_token_defined_witness:
  "split_ws ''  NOx  1 2\<newline>'' \<noteq> []
   \<and> config_line \<lparr>config_dict = [(''BASE'', [])], current_section = Some ''BASE'',
        current_sub_section = None\<rparr> ''  NOx  1 2\<newline>'' =
      Inr \<lparr>config_dict = [(''BASE'', [(''NOx'', Rows [[''NOx'', ''1'', ''2'']])])],
           current_section = Some ''BASE'', current_sub_section = Some ''NOx''\<rparr>"
proof -
  let ?line = "''  NOx  1 2\<newline>''"
  let ?st = "\<lparr>config_dict = [(''BASE'', [])], current_section = Some ''BASE'',
        current_sub_section = None\<rparr>"
  have parts: "split_ws ?line = [''NOx'', ''1'', ''2'']"
    by code_simp
  have reach: "for_lines config_line config_init [''BEGIN SECTION BASE\<newline>''] = Inr ?st"
    by code_simp
  have act: "active (current_section ?st) = Some ''BASE''"
    "active (current_sub_section ?st) = None"
    by (simp_all add: active_def)
  have l: "\<not> startswith ?line ''!''" "\<not> startswith ?line ''#''" "\<not> is_blank ?line"
    "\<not> startswith ?line ''BEGIN SECTION''" "\<not> startswith ?line ''END SECTION''"
    "\<not> startswith ?line ''%''" "CHR '':'' \<notin> set ?line"
    by (simp_all add: startswith_def is_blank_def is_space_def)
  note w = config_first_token_defined [OF reach act(1) l]
  from w have a: "split_ws ?line \<noteq> []" by (rule conjunct1)
  from w act(2) have "\<exists>body. map_of (config_dict ?st) ''BASE'' = Some body
      \<and> config_line ?st ?line =
          Inr (?st\<lparr>current_sub_section := Some (hd (split_ws ?line)),
                 config_dict :=
                   AList.update ''BASE''
                     (AList.update (hd (split_ws ?line)) (Rows [split_ws ?line]) body)
                     (config_dict ?st)\<rparr>)"
    by blast
  then have b: "config_line ?st ?line =
      Inr \<lparr>config_dict = [(''BASE'', [(''NOx'', Rows [[''NOx'', ''1'', ''2'']])])],
           current_section = Some ''BASE'', current_sub_section = Some ''NOx''\<rparr>"
    unfolding parts by auto
  from a b show ?thesis by (rule conjI)
qed


subsection \<open>C10: tokens after the sixth in a species row\<close>

text \<open>
  C10.  For a data row of the species dialect with more than six tokens, read in a state
  the loop can reach with a section active: the record and the key computed from the
  tokens are those computed from the first six tokens, the entry stored has the second
  token as key and tokens three to six as MW, K0, CR, pKA, and any data row whose tokens
  are the first six of this row leaves the loop in the same state.
\<close>

theorem species_extra_tokens_ignored:
  assumes "for_lines species_line species_init pre = Inr st"
    and "active (species_current_section st) = Some sec"
    and "\<not> startswith line ''!''" and "\<not> startswith line ''#''" and "\<not> is_blank line"
    and "\<not> startswith line ''BEGIN''" and "\<not> startswith line ''END''"
    and "parts = split_ws line" and "6 < length parts"
  shows "species_row parts = species_row (take 6 parts)
       \<and> py_index parts 1 = py_index (take 6 parts) 1
       \<and> (\<exists>body. map_of (species_dict st) sec = Some body
            \<and> species_line st line =
                Inr (st\<lparr>species_dict :=
                  AList.update sec
                    (AList.update (parts ! 1)
                       \<lparr>MW = parts ! 2, K0 = parts ! 3, CR = parts ! 4, pKA = parts ! 5\<rparr> body)
                    (species_dict st)\<rparr>))
       \<and> (\<forall>short. \<not> startswith short ''!'' \<and> \<not> startswith short ''#'' \<and> \<not> is_blank short
             \<and> \<not> startswith short ''BEGIN'' \<and> \<not> startswith short ''END''
             \<and> split_ws short = take 6 parts
            \<longrightarrow> species_line st short = species_line st line)"
proof -
  from assms(9) have len: "6 \<le> length parts" "6 \<le> length (take 6 parts)" by simp_all
  have row: "species_row parts = species_row (take 6 parts)"
    unfolding species_row_enough [OF len(1)] species_row_enough [OF len(2)] by simp
  have key: "py_index parts 1 = py_index (take 6 parts) 1"
    using assms(9) by (simp add: py_index_def)
  from species_reach_section [OF assms(1,2)] obtain body
    where body: "map_of (species_dict st) sec = Some body" by blast
  have full: "species_line st line =
      Inr (st\<lparr>species_dict :=
        AList.update sec
          (AList.update (parts ! 1)
             \<lparr>MW = parts ! 2, K0 = parts ! 3, CR = parts ! 4, pKA = parts ! 5\<rparr> body)
          (species_dict st)\<rparr>)"
    unfolding species_line_data [OF assms(2-7)] assms(8) [symmetric] species_row_enough [OF len(1)]
    using body assms(9) by (simp add: py_getitem_def py_index_def bind_err_simps)
  have short: "species_line st short = species_line st line"
    if s: "\<not> startswith short ''!''" "\<not> startswith short ''#''" "\<not> is_blank short"
      "\<not> startswith short ''BEGIN''" "\<not> startswith short ''END''"
      and t: "split_ws short = take 6 parts" for short
    unfolding species_line_data [OF assms(2) s] species_line_data [OF assms(2-7)]
      assms(8) [symmetric] t row key ..
  from row key body full short show ?thesis by blast
qed


theorem species_extra_tokens_ignored_witness:
  "species_line \<lparr>species_dict = [(''Species'', [])], species_current_section = Some ''Species''\<rparr>
     ''1 NO2 46.0 1e-5 0.0 3.4 extra columns\<newline>'' =
   Inr \<lparr>species_dict = [(''Species'',
          [(''NO2'', \<lparr>MW = ''46.0'', K0 = ''1e-5'', CR = ''0.0'', pKA = ''3.4''\<rparr>)])],
        species_current_section = Some ''Species''\<rparr>
   \<and> species_line \<lparr>species_dict = [(''Species'', [])], species_current_section = Some ''Species''\<rparr>
     ''1 NO2 46.0 1e-5 0.0 3.4\<newline>'' =
     species_line \<lparr>species_dict = [(''Species'', [])], species_current_section = Some ''Species''\<rparr>
     ''1 NO2 46.0 1e-5 0.0 3.4 extra columns\<newline>''"
proof -
  let ?line = "''1 NO2 46.0 1e-5 0.0 3.4 extra columns\<newline>''"
  let ?short = "''1 NO2 46.0 1e-5 0.0 3.4\<newline>''"
  let ?st = "\<lparr>species_dict = [(''Species'', [])], species_current_section = Some ''Species''\<rparr>"
  let ?parts = "[''1'', ''NO2'', ''46.0'', ''1e-5'', ''0.0'', ''3.4'', ''extra'', ''columns'']"
  have parts: "?parts = split_ws ?line"
    by code_simp
  have sparts: "split_ws ?short = take 6 ?parts"
    by code_simp
  have reach: "for_lines species_line species_init [''BEGIN Species\<newline>''] = Inr ?st"
    by code_simp
  have act: "active (species_current_section ?st) = Some ''Species''"
    by (simp add: active_def)
  have l: "\<not> startswith ?line ''!''" "\<not> startswith ?line ''#''" "\<not> is_blank ?line"
    "\<not> startswith ?line ''BEGIN''" "\<not> startswith ?line ''END''"
    by (simp_all add: startswith_def is_blank_def is_space_def)
  have s: "\<not> startswith ?short ''!''" "\<not> startswith ?short ''#''" "\<not> is_blank ?short"
    "\<not> startswith ?short ''BEGIN''" "\<not> startswith ?short ''END''"
    by (simp_all add: startswith_def is_blank_def is_space_def)
  have len: "6 < length ?parts"
    by simp
  note w = species_extra_tokens_ignored [OF reach act l parts len]
  from w have "\<exists>body. map_of (species_dict ?st) ''Species'' = Some body
      \<and> species_line ?st ?line =
          Inr (?st\<lparr>species_dict :=
            AList.update ''Species''
              (AList.update (?parts ! 1)
                 \<lparr>MW = ?parts ! 2, K0 = ?parts ! 3, CR = ?parts ! 4, pKA = ?parts ! 5\<rparr> body)
              (species_dict ?st)\<rparr>)"
    by blast
  then have a: "species_line ?st ?line =
      Inr \<lparr>species_dict = [(''Species'',
          [(''NO2'', \<lparr>MW = ''46.0'', K0 = ''1e-5'', CR = ''0.0'', pKA = ''3.4''\<rparr>)])],
        species_current_section = Some ''Species''\<rparr>"
    by auto
  from w s sparts have b: "species_line ?st ?short = species_line ?st ?line"
    by blast
  from a b show ?thesis by (rule conjI)
qed

end
